theory Spec2Isabelle
  imports Main "HOL-Library.Word"
begin

section \<open>Data model of BlockLink_SmartContract.sol\<close>

text \<open>
  An \<open>address\<close> is a 160-bit word, \<open>address(0)\<close> is \<open>0\<close>. A \<open>uint256\<close> is a natural
  number; the contract is compiled with \<open>pragma solidity ^0.8.0\<close>, so \<open>+\<close>, \<open>++\<close>, \<open>+=\<close> and
  \<open>*\<close> revert with a panic when the result does not fit 256 bits. That check is written
  out in \<open>checked_add\<close> and \<open>checked_mul\<close>.
\<close>

type_synonym address = "160 word"

datatype Role = NONE | MATCHMAKER | VERIFIER | ADMIN

record User =
  userAddress :: address
  role :: Role
  totalRewardsEarned :: nat
  userSuccessfulMatches :: nat
  isActive :: bool

record Match =
  matchId :: nat
  matchmaker :: address
  peer1 :: address
  peer2 :: address
  rewardAmount :: nat
  isVerified :: bool
  createdAt :: nat
  completedAt :: nat

text \<open>
  The field \<open>successfulMatches\<close> of the struct \<open>User\<close> is named \<open>userSuccessfulMatches\<close>
  here, since the contract has a state variable of the same name.

  A Solidity mapping is total: a key that was never written reads as the zero value
  of the value type.
\<close>

definition zeroUser :: User where
  "zeroUser = \<lparr>userAddress = 0, role = NONE, totalRewardsEarned = 0,
     userSuccessfulMatches = 0, isActive = False\<rparr>"

definition zeroMatch :: Match where
  "zeroMatch = \<lparr>matchId = 0, matchmaker = 0, peer1 = 0, peer2 = 0, rewardAmount = 0,
     isVerified = False, createdAt = 0, completedAt = 0\<rparr>"

text \<open>
  The state of the token contract \<open>BlockLinkToken\<close> (an ERC-20 ledger with an owner).
\<close>

record ledger =
  balances :: "address \<Rightarrow> nat"
  allowances :: "address \<Rightarrow> address \<Rightarrow> nat"
  totalSupply :: nat
  tokenOwner :: address

text \<open>
  The state of \<open>BlockLinkRewardProtocol\<close>: its storage variables, the owner kept by
  \<open>Ownable\<close>, the contract's own address (\<open>address(this)\<close>) and the state of the token
  contract \<open>rewardToken\<close> points to.
\<close>

record world =
  users :: "address \<Rightarrow> User"
  matches :: "nat \<Rightarrow> Match"
  verifiers :: "address \<Rightarrow> bool"
  matchCounter :: nat
  totalMatches :: nat
  successfulMatches :: nat
  owner :: address
  thisAddress :: address
  rewardToken :: ledger

text \<open>The caller and the block of a call: \<open>msg.sender\<close> and \<open>block.timestamp\<close>.\<close>

record env =
  msg_sender :: address
  block_timestamp :: nat

text \<open>
  A failed call. \<open>Require m\<close> is a \<open>require\<close> of the registry that failed with message
  \<open>m\<close>; \<open>Panic\<close> is the arithmetic overflow panic of checked arithmetic. \<open>NotOwner\<close> is
  the \<open>onlyOwner\<close> modifier of \<open>Ownable\<close> rejecting a caller that is not the owner
  (the specification's "privileged (owner only)"), \<open>OwnerZeroAddress\<close> its refusal to
  hand ownership to the null address; the remaining ones are failures of the ledger.

  The specification names the failures of the registry; its names stand for these
  messages: \<open>InvalidRole\<close> for "Invalid role"; \<open>AlreadyRegistered\<close> for "User already
  registered"; \<open>NotRegistered\<close> for "User not registered" and "Matchmaker not
  registered"; \<open>UnauthorizedRole\<close> for "Only matchmakers can create matches" and "Only
  verifiers can verify matches"; \<open>InvalidAddress\<close> for "Invalid peer addresses" and
  "Peers must be different"; \<open>UnknownMatch\<close> for "Invalid match ID" and "Match does not
  exist"; \<open>AlreadyVerified\<close> for "Match already verified"; \<open>InsufficientBalance\<close> for
  "Insufficient reward token balance" and "Insufficient balance"; \<open>InvalidAmount\<close> for
  "Invalid amount".
\<close>

datatype error =
    Require string
  | Panic
  | NotOwner
  | OwnerZeroAddress
  | LedgerInsufficientBalance
  | LedgerNullAddress
  | LedgerInsufficientAllowance

definition uint256_max :: nat where
  "uint256_max = 2 ^ 256 - 1"

definition checked_add :: "nat \<Rightarrow> nat \<Rightarrow> error + nat" where
  "checked_add a b = (if a + b \<le> uint256_max then Inr (a + b) else Inl Panic)"

definition checked_mul :: "nat \<Rightarrow> nat \<Rightarrow> error + nat" where
  "checked_mul a b = (if a * b \<le> uint256_max then Inr (a * b) else Inl Panic)"

definition REWARD_AMOUNT :: nat where
  "REWARD_AMOUNT = 100 * 10 ^ 18"

section \<open>The reward ledger\<close>

text \<open>
  Modelled from the spec: the ERC-20 base contract (OpenZeppelin \<open>ERC20.sol\<close>) that
  \<open>BlockLinkToken\<close> inherits is not among the sources. Section 4.1 of the specification:
  \<open>balanceOf(owner)\<close> is a read-only lookup that returns 0 for unknown addresses.
\<close>

definition balanceOf :: "address \<Rightarrow> ledger \<Rightarrow> nat" where
  "balanceOf a l = balances l a"

text \<open>
  Modelled from the spec: \<open>transfer(to, amount)\<close> of the missing \<open>ERC20.sol\<close>, with the
  caller \<open>src\<close> made explicit. Section 4.1: it decreases the caller's balance and
  increases \<open>to\<close>'s balance; it fails if the caller's balance is less than \<open>amount\<close> or
  \<open>to\<close> is a null identity.
\<close>

definition transfer :: "address \<Rightarrow> address \<Rightarrow> nat \<Rightarrow> ledger \<Rightarrow> error + ledger" where
  "transfer src to amount l =
    (if to = 0 then Inl LedgerNullAddress
     else if balances l src < amount then Inl LedgerInsufficientBalance
     else
       let b1 = (balances l)(src := balances l src - amount);
           b2 = b1(to := b1 to + amount)
       in Inr (l\<lparr>balances := b2\<rparr>))"

text \<open>
  Modelled from the spec: \<open>approve\<close> and \<open>transferFrom\<close> of the missing \<open>ERC20.sol\<close>.
  The specification only says that \<open>fundRewards\<close> moves tokens from the caller to the
  registry through the ledger; the allowance that \<open>transferFrom\<close> consumes follows the
  ERC-20 standard.
\<close>

definition approve :: "address \<Rightarrow> address \<Rightarrow> nat \<Rightarrow> ledger \<Rightarrow> error + ledger" where
  "approve src spender amount l =
    (if spender = 0 then Inl LedgerNullAddress
     else Inr (l\<lparr>allowances := (allowances l)(src := (allowances l src)(spender := amount))\<rparr>))"

definition transferFrom ::
  "address \<Rightarrow> address \<Rightarrow> address \<Rightarrow> nat \<Rightarrow> ledger \<Rightarrow> error + ledger" where
  "transferFrom spender src to amount l =
    (if allowances l src spender < amount then Inl LedgerInsufficientAllowance
     else
       let l1 = l\<lparr>allowances :=
                  (allowances l)(src := (allowances l src)(spender := allowances l src spender - amount))\<rparr>
       in transfer src to amount l1)"

text \<open>
  Modelled from the spec: the internal \<open>_mint(to, amount)\<close> and \<open>_burn(from, amount)\<close> of
  the missing \<open>ERC20.sol\<close>. Section 4.1: minting increases \<open>to\<close>'s balance and the total
  supply by \<open>amount\<close>, with no upper bound beyond integer overflow protection; burning
  decreases the holder's balance by \<open>amount\<close> and fails if the balance is insufficient.
\<close>

definition erc20_mint :: "address \<Rightarrow> nat \<Rightarrow> ledger \<Rightarrow> error + ledger" where
  "erc20_mint to amount l =
    (if to = 0 then Inl LedgerNullAddress
     else (case checked_add (totalSupply l) amount of
         Inl e \<Rightarrow> Inl e
       | Inr ts \<Rightarrow>
           Inr (l\<lparr>balances := (balances l)(to := balances l to + amount), totalSupply := ts\<rparr>)))"

definition erc20_burn :: "address \<Rightarrow> nat \<Rightarrow> ledger \<Rightarrow> error + ledger" where
  "erc20_burn src amount l =
    (if balances l src < amount then Inl LedgerInsufficientBalance
     else Inr (l\<lparr>balances := (balances l)(src := balances l src - amount),
                totalSupply := totalSupply l - amount\<rparr>))"

text \<open>
  \<open>BlockLinkToken.mint\<close>, which only the token's owner may call, and
  \<open>BlockLinkToken.burn\<close>, with the caller \<open>sender\<close> made explicit.
\<close>

definition mint :: "address \<Rightarrow> address \<Rightarrow> nat \<Rightarrow> ledger \<Rightarrow> error + ledger" where
  "mint sender to amount l =
    (if sender \<noteq> tokenOwner l then Inl NotOwner
     else erc20_mint to amount l)"

definition burn :: "address \<Rightarrow> nat \<Rightarrow> ledger \<Rightarrow> error + ledger" where
  "burn sender amount l = erc20_burn sender amount l"

section \<open>The matching registry\<close>

text \<open>
  Every operation takes the call environment and the state, and returns either the
  error it reverted with or its return value and the state it leaves. Events are not
  part of the model. The \<open>nonReentrant\<close> modifier is not part of it either: its flag is
  clear whenever a top-level call begins, and the ledger above never calls back.
\<close>

type_synonym 'a result = "error + ('a \<times> world)"

definition constructor :: "address \<Rightarrow> address \<Rightarrow> ledger \<Rightarrow> world" where
  "constructor deployer self tok =
    \<lparr>users = (\<lambda>_. zeroUser), matches = (\<lambda>_. zeroMatch),
     verifiers = (\<lambda>_. False)(deployer := True),
     matchCounter = 0, totalMatches = 0, successfulMatches = 0,
     owner = deployer, thisAddress = self, rewardToken = tok\<rparr>"

definition registerUser :: "Role \<Rightarrow> env \<Rightarrow> world \<Rightarrow> unit result" where
  "registerUser r e w =
    (if r = NONE then Inl (Require ''Invalid role'')
     else if isActive (users w (msg_sender e)) then Inl (Require ''User already registered'')
     else
       let w1 = w\<lparr>users := (users w)(msg_sender e :=
                   \<lparr>userAddress = msg_sender e, role = r, totalRewardsEarned = 0,
                    userSuccessfulMatches = 0, isActive = True\<rparr>)\<rparr>;
           w2 = (if r = VERIFIER
                 then w1\<lparr>verifiers := (verifiers w1)(msg_sender e := True)\<rparr>
                 else w1)
       in Inr ((), w2))"

definition assignRole :: "address \<Rightarrow> Role \<Rightarrow> env \<Rightarrow> world \<Rightarrow> unit result" where
  "assignRole u r e w =
    (if msg_sender e \<noteq> owner w then Inl NotOwner
     else if \<not> isActive (users w u) then Inl (Require ''User not registered'')
     else if r = NONE then Inl (Require ''Invalid role'')
     else
       let w1 = w\<lparr>users := (users w)(u := (users w u)\<lparr>role := r\<rparr>)\<rparr>;
           w2 = (if r = VERIFIER
                 then w1\<lparr>verifiers := (verifiers w1)(u := True)\<rparr>
                 else w1)
       in Inr ((), w2))"

definition createMatch :: "address \<Rightarrow> address \<Rightarrow> env \<Rightarrow> world \<Rightarrow> nat result" where
  "createMatch p1 p2 e w =
    (if \<not> isActive (users w (msg_sender e)) then Inl (Require ''Matchmaker not registered'')
     else if role (users w (msg_sender e)) \<noteq> MATCHMAKER
       then Inl (Require ''Only matchmakers can create matches'')
     else if \<not> (p1 \<noteq> 0 \<and> p2 \<noteq> 0) then Inl (Require ''Invalid peer addresses'')
     else if \<not> p1 \<noteq> p2 then Inl (Require ''Peers must be different'')
     else (case checked_add (matchCounter w) 1 of
         Inl err \<Rightarrow> Inl err
       | Inr mc \<Rightarrow>
           let mid = matchCounter w in
           (case checked_add (totalMatches w) 1 of
              Inl err \<Rightarrow> Inl err
            | Inr tm \<Rightarrow>
                let w1 = w\<lparr>matchCounter := mc, totalMatches := tm\<rparr>;
                    w2 = w1\<lparr>matches := (matches w1)(mid :=
                           \<lparr>matchId = mid, matchmaker = msg_sender e, peer1 = p1, peer2 = p2,
                            rewardAmount = REWARD_AMOUNT, isVerified = False,
                            createdAt = block_timestamp e, completedAt = 0\<rparr>)\<rparr>
                in Inr (mid, w2))))"

definition distributeReward :: "nat \<Rightarrow> world \<Rightarrow> unit result" where
  "distributeReward m w =
    (let matchData = matches w m;
         mm = matchmaker matchData;
         amount = rewardAmount matchData
     in
     if \<not> (balanceOf (thisAddress w) (rewardToken w) \<ge> amount)
       then Inl (Require ''Insufficient reward token balance'')
     else (case checked_add (totalRewardsEarned (users w mm)) amount of
         Inl err \<Rightarrow> Inl err
       | Inr tre \<Rightarrow>
           let w1 = w\<lparr>users := (users w)(mm := (users w mm)\<lparr>totalRewardsEarned := tre\<rparr>)\<rparr> in
           (case checked_add (userSuccessfulMatches (users w1 mm)) 1 of
              Inl err \<Rightarrow> Inl err
            | Inr sm \<Rightarrow>
                let w2 = w1\<lparr>users := (users w1)(mm := (users w1 mm)\<lparr>userSuccessfulMatches := sm\<rparr>)\<rparr> in
                (case transfer (thisAddress w2) mm amount (rewardToken w2) of
                   Inl err \<Rightarrow> Inl err
                 | Inr tok \<Rightarrow> Inr ((), w2\<lparr>rewardToken := tok\<rparr>)))))"

definition verifyMatch :: "nat \<Rightarrow> env \<Rightarrow> world \<Rightarrow> unit result" where
  "verifyMatch m e w =
    (if \<not> verifiers w (msg_sender e) then Inl (Require ''Only verifiers can verify matches'')
     else if \<not> m < matchCounter w then Inl (Require ''Invalid match ID'')
     else if isVerified (matches w m) then Inl (Require ''Match already verified'')
     else if \<not> createdAt (matches w m) \<noteq> 0 then Inl (Require ''Match does not exist'')
     else (case checked_add (successfulMatches w) 1 of
         Inl err \<Rightarrow> Inl err
       | Inr sm \<Rightarrow>
           let w1 = w\<lparr>matches := (matches w)(m :=
                      (matches w m)\<lparr>isVerified := True, completedAt := block_timestamp e\<rparr>)\<rparr>;
               w2 = w1\<lparr>successfulMatches := sm\<rparr>
           in distributeReward m w2))"

text \<open>
  The state \<open>verifyMatch\<close> hands to \<open>_distributeReward\<close>: the match is already marked
  verified and the counter of verified matches already incremented.
\<close>

definition markVerified :: "nat \<Rightarrow> env \<Rightarrow> world \<Rightarrow> world" where
  "markVerified m e w =
    w\<lparr>matches := (matches w)(m :=
         (matches w m)\<lparr>isVerified := True, completedAt := block_timestamp e\<rparr>),
      successfulMatches := successfulMatches w + 1\<rparr>"

subsection \<open>Getter functions\<close>

definition getUserInfo :: "address \<Rightarrow> world \<Rightarrow> User result" where
  "getUserInfo u w = Inr (users w u, w)"

definition getMatchInfo :: "nat \<Rightarrow> world \<Rightarrow> Match result" where
  "getMatchInfo m w =
    (if \<not> m < matchCounter w then Inl (Require ''Invalid match ID'')
     else Inr (matches w m, w))"

definition getMatchmakerStats :: "address \<Rightarrow> world \<Rightarrow> (nat \<times> nat \<times> bool) result" where
  "getMatchmakerStats u w =
    (let user = users w u
     in Inr ((totalRewardsEarned user, userSuccessfulMatches user, isActive user), w))"

definition getProtocolStats :: "world \<Rightarrow> (nat \<times> nat \<times> nat) result" where
  "getProtocolStats w =
    (if totalMatches w > 0
     then (case checked_mul (successfulMatches w) 100 of
         Inl err \<Rightarrow> Inl err
       | Inr p \<Rightarrow> Inr ((totalMatches w, successfulMatches w, p div totalMatches w), w))
     else Inr ((totalMatches w, successfulMatches w, 0), w))"

definition getContractBalance :: "world \<Rightarrow> nat result" where
  "getContractBalance w = Inr (balanceOf (thisAddress w) (rewardToken w), w)"

subsection \<open>Admin functions\<close>

definition fundRewards :: "nat \<Rightarrow> env \<Rightarrow> world \<Rightarrow> unit result" where
  "fundRewards amount e w =
    (if msg_sender e \<noteq> owner w then Inl NotOwner
     else if \<not> amount > 0 then Inl (Require ''Invalid amount'')
     else (case transferFrom (thisAddress w) (msg_sender e) (thisAddress w) amount (rewardToken w) of
         Inl err \<Rightarrow> Inl err
       | Inr tok \<Rightarrow> Inr ((), w\<lparr>rewardToken := tok\<rparr>)))"

definition withdrawTokens :: "nat \<Rightarrow> env \<Rightarrow> world \<Rightarrow> unit result" where
  "withdrawTokens amount e w =
    (if msg_sender e \<noteq> owner w then Inl NotOwner
     else if \<not> amount > 0 then Inl (Require ''Invalid amount'')
     else if \<not> balanceOf (thisAddress w) (rewardToken w) \<ge> amount
       then Inl (Require ''Insufficient balance'')
     else (case transfer (thisAddress w) (msg_sender e) amount (rewardToken w) of
         Inl err \<Rightarrow> Inl err
       | Inr tok \<Rightarrow> Inr ((), w\<lparr>rewardToken := tok\<rparr>)))"

text \<open>
  The registry inherits \<open>transferOwnership\<close> and \<open>renounceOwnership\<close> from OpenZeppelin's
  \<open>Ownable\<close>. The library is not among the sources and the specification does not
  describe the two operations; they are modelled here after the library, only so that
  the reachable states cover a change of owner. No statement below depends on who
  the owner is.
\<close>

definition transferOwnership :: "address \<Rightarrow> env \<Rightarrow> world \<Rightarrow> unit result" where
  "transferOwnership newOwner e w =
    (if msg_sender e \<noteq> owner w then Inl NotOwner
     else if newOwner = 0 then Inl OwnerZeroAddress
     else Inr ((), w\<lparr>owner := newOwner\<rparr>))"

definition renounceOwnership :: "env \<Rightarrow> world \<Rightarrow> unit result" where
  "renounceOwnership e w =
    (if msg_sender e \<noteq> owner w then Inl NotOwner
     else Inr ((), w\<lparr>owner := 0\<rparr>))"

section \<open>Transactions and reachable states\<close>

text \<open>
  A call that reverts leaves the state as it was before the call: \<open>post f w\<close> is the
  state after the call \<open>f\<close> made in \<open>w\<close>.
\<close>

definition post :: "(world \<Rightarrow> 'a result) \<Rightarrow> world \<Rightarrow> world" where
  "post f w = (case f w of Inl _ \<Rightarrow> w | Inr (_, w') \<Rightarrow> w')"

definition succeeds :: "(world \<Rightarrow> 'a result) \<Rightarrow> world \<Rightarrow> bool" where
  "succeeds f w = (case f w of Inl _ \<Rightarrow> False | Inr _ \<Rightarrow> True)"

text \<open>A call on the ledger made directly by some account, not through the registry.\<close>

definition onToken :: "(ledger \<Rightarrow> error + ledger) \<Rightarrow> world \<Rightarrow> unit result" where
  "onToken f w = (case f (rewardToken w) of Inl err \<Rightarrow> Inl err | Inr tok \<Rightarrow> Inr ((), w\<lparr>rewardToken := tok\<rparr>))"

datatype call =
    RegisterUser Role
  | AssignRole address Role
  | CreateMatch address address
  | VerifyMatch nat
  | FundRewards nat
  | WithdrawTokens nat
  | TransferOwnership address
  | RenounceOwnership
  | TokenTransfer address nat
  | TokenApprove address nat
  | TokenTransferFrom address address nat
  | TokenMint address nat
  | TokenBurn nat

fun exec :: "call \<Rightarrow> env \<Rightarrow> world \<Rightarrow> world" where
  "exec (RegisterUser r) e w = post (registerUser r e) w"
| "exec (AssignRole u r) e w = post (assignRole u r e) w"
| "exec (CreateMatch p1 p2) e w = post (createMatch p1 p2 e) w"
| "exec (VerifyMatch m) e w = post (verifyMatch m e) w"
| "exec (FundRewards a) e w = post (fundRewards a e) w"
| "exec (WithdrawTokens a) e w = post (withdrawTokens a e) w"
| "exec (TransferOwnership n) e w = post (transferOwnership n e) w"
| "exec RenounceOwnership e w = post (renounceOwnership e) w"
| "exec (TokenTransfer to a) e w = post (onToken (transfer (msg_sender e) to a)) w"
| "exec (TokenApprove sp a) e w = post (onToken (approve (msg_sender e) sp a)) w"
| "exec (TokenTransferFrom src to a) e w = post (onToken (transferFrom (msg_sender e) src to a)) w"
| "exec (TokenMint to a) e w = post (onToken (mint (msg_sender e) to a)) w"
| "exec (TokenBurn a) e w = post (onToken (burn (msg_sender e) a)) w"

text \<open>
  What the chain guarantees of a call made from outside: the caller is neither the
  null address nor the registry itself (the registry has no code that calls its own
  external functions), the block time is not zero, and every \<open>uint256\<close> argument and
  the block time fit 256 bits.
\<close>

fun args_ok :: "call \<Rightarrow> bool" where
  "args_ok (VerifyMatch m) = (m \<le> uint256_max)"
| "args_ok (FundRewards a) = (a \<le> uint256_max)"
| "args_ok (WithdrawTokens a) = (a \<le> uint256_max)"
| "args_ok (TokenTransfer to a) = (a \<le> uint256_max)"
| "args_ok (TokenApprove sp a) = (a \<le> uint256_max)"
| "args_ok (TokenTransferFrom src to a) = (a \<le> uint256_max)"
| "args_ok (TokenMint to a) = (a \<le> uint256_max)"
| "args_ok (TokenBurn a) = (a \<le> uint256_max)"
| "args_ok _ = True"

definition valid_env :: "world \<Rightarrow> env \<Rightarrow> bool" where
  "valid_env w e =
    (msg_sender e \<noteq> 0 \<and> msg_sender e \<noteq> thisAddress w \<and>
     block_timestamp e \<noteq> 0 \<and> block_timestamp e \<le> uint256_max)"

inductive reachable :: "world \<Rightarrow> bool" where
  deployed: "deployer \<noteq> 0 \<Longrightarrow> self \<noteq> 0 \<Longrightarrow> deployer \<noteq> self \<Longrightarrow>
     reachable (constructor deployer self tok)"
| called: "reachable w \<Longrightarrow> valid_env w e \<Longrightarrow> args_ok c \<Longrightarrow> reachable (exec c e w)"

text \<open>A sequence of calls, each with its own caller and block.\<close>

fun run :: "(call \<times> env) list \<Rightarrow> world \<Rightarrow> world" where
  "run [] w = w"
| "run (ce # rest) w = run rest (exec (fst ce) (snd ce) w)"

fun valid_trace :: "world \<Rightarrow> (call \<times> env) list \<Rightarrow> bool" where
  "valid_trace w [] = True"
| "valid_trace w (ce # rest) =
    (valid_env w (snd ce) \<and> args_ok (fst ce) \<and> valid_trace (exec (fst ce) (snd ce) w) rest)"

text \<open>
  What holds of the registry's records in every reachable state: the two counters
  agree; every allocated match has a creation time, the fixed reward and a registered
  matchmaker that is neither the null address nor the registry; every id not yet
  allocated still reads as the zero record; a match is verified exactly when it has a
  completion time; an address without an active record still reads as the zero record.
\<close>

definition registry_inv :: "world \<Rightarrow> bool" where
  "registry_inv w =
    (matchCounter w = totalMatches w \<and>
     (\<forall>m. m < matchCounter w \<longrightarrow>
        createdAt (matches w m) \<noteq> 0 \<and> rewardAmount (matches w m) = REWARD_AMOUNT \<and>
        matchmaker (matches w m) \<noteq> 0 \<and> matchmaker (matches w m) \<noteq> thisAddress w \<and>
        isActive (users w (matchmaker (matches w m)))) \<and>
     (\<forall>m. \<not> m < matchCounter w \<longrightarrow> matches w m = zeroMatch) \<and>
     (\<forall>m. isVerified (matches w m) = (completedAt (matches w m) \<noteq> 0)) \<and>
     (\<forall>a. \<not> isActive (users w a) \<longrightarrow> users w a = zeroUser))"

text \<open>
  \<open>registers a c e w\<close>: the call \<open>c\<close> made in \<open>w\<close> is a successful \<open>registerUser\<close> by \<open>a\<close>;
  \<open>ever_registered a w tr\<close>: some call of the sequence \<open>tr\<close>, run from \<open>w\<close>, is one.
\<close>

fun registers :: "address \<Rightarrow> call \<Rightarrow> env \<Rightarrow> world \<Rightarrow> bool" where
  "registers a (RegisterUser r) e w = (msg_sender e = a \<and> succeeds (registerUser r e) w)"
| "registers a _ e w = False"

fun ever_registered :: "address \<Rightarrow> world \<Rightarrow> (call \<times> env) list \<Rightarrow> bool" where
  "ever_registered a w [] = False"
| "ever_registered a w (ce # rest) =
    (registers a (fst ce) (snd ce) w \<or> ever_registered a (exec (fst ce) (snd ce) w) rest)"

text \<open>
  The ids returned by the successful \<open>createMatch\<close> calls of a sequence of calls, in
  the order of the calls.
\<close>

fun created_ids :: "world \<Rightarrow> (call \<times> env) list \<Rightarrow> nat list" where
  "created_ids w [] = []"
| "created_ids w (ce # rest) =
    (case fst ce of
       CreateMatch p1 p2 \<Rightarrow>
         (case createMatch p1 p2 (snd ce) w of Inl _ \<Rightarrow> [] | Inr (i, _) \<Rightarrow> [i])
     | _ \<Rightarrow> [])
    @ created_ids (exec (fst ce) (snd ce) w) rest"

section \<open>A concrete run\<close>

text \<open>
  The scenario of section 8 of the specification, used to instantiate the theorems
  below: the deployer (address 1) deploys the registry at address 9 over a ledger
  that holds 1000 tokens for the deployer, Alice (address 2) registers as matchmaker
  and creates a match between the peers 5 and 6, the deployer sends 500 tokens to the
  registry and then verifies the match.
\<close>

definition demoLedger :: ledger where
  "demoLedger = \<lparr>balances = (\<lambda>_. 0)(1 := 1000 * 10 ^ 18), allowances = (\<lambda>_ _. 0),
     totalSupply = 1000 * 10 ^ 18, tokenOwner = 1\<rparr>"

definition asDeployer :: env where
  "asDeployer = \<lparr>msg_sender = 1, block_timestamp = 1700000000\<rparr>"

definition asAlice :: env where
  "asAlice = \<lparr>msg_sender = 2, block_timestamp = 1700000000\<rparr>"

definition asBob :: env where
  "asBob = \<lparr>msg_sender = 3, block_timestamp = 1700000000\<rparr>"

definition demo0 :: world where
  "demo0 = constructor 1 9 demoLedger"

definition demo1 :: world where
  "demo1 = exec (RegisterUser MATCHMAKER) asAlice demo0"

definition demo2 :: world where
  "demo2 = exec (CreateMatch 5 6) asAlice demo1"

definition demo3 :: world where
  "demo3 = exec (TokenTransfer 9 (500 * 10 ^ 18)) asDeployer demo2"

definition demo4 :: world where
  "demo4 = exec (VerifyMatch 0) asDeployer demo3"

text \<open>
  Two side branches from the freshly deployed registry: Bob (address 3) registers as
  verifier and the owner then reassigns him to ADMIN; or Bob registers as ADMIN.
\<close>

definition demoV :: world where
  "demoV = exec (RegisterUser VERIFIER) asBob demo0"

definition demoV2 :: world where
  "demoV2 = exec (AssignRole 3 ADMIN) asDeployer demoV"

definition demoA :: world where
  "demoA = exec (RegisterUser ADMIN) asBob demo0"

section \<open>Auxiliary facts\<close>

lemmas op_defs = registerUser_def assignRole_def createMatch_def verifyMatch_def
  distributeReward_def fundRewards_def withdrawTokens_def transferOwnership_def
  renounceOwnership_def onToken_def transfer_def transferFrom_def approve_def mint_def
  burn_def erc20_mint_def erc20_burn_def checked_add_def balanceOf_def

lemma zeroMatch_simps [simp]:
  "isVerified zeroMatch = False" "completedAt zeroMatch = 0" "createdAt zeroMatch = 0"
  by (simp_all add: zeroMatch_def)

lemma zeroUser_simps [simp]: "isActive zeroUser = False"
  by (simp add: zeroUser_def)

lemma registry_inv_constructor: "registry_inv (constructor d s tok)"
  by (simp add: registry_inv_def constructor_def)

lemma registry_inv_exec: "registry_inv w \<Longrightarrow> valid_env w e \<Longrightarrow> registry_inv (exec c e w)"
  by (cases c)
    (auto simp: registry_inv_def post_def op_defs valid_env_def Let_def
      split: sum.splits if_splits)

lemma exec_thisAddress [simp]: "thisAddress (exec c e w) = thisAddress w"
  by (cases c) (auto simp: post_def op_defs Let_def split: sum.splits if_splits)

lemma reachable_inv: "reachable w \<Longrightarrow> registry_inv w"
  by (induction rule: reachable.induct) (simp_all add: registry_inv_constructor registry_inv_exec)

lemma reachable_run: "reachable w \<Longrightarrow> valid_trace w tr \<Longrightarrow> reachable (run tr w)"
  by (induction tr arbitrary: w) (auto intro: reachable.called)

lemma uint256_max_val:
  "uint256_max = 115792089237316195423570985008687907853269984665640564039457584007913129639935"
  by (simp add: uint256_max_def)

lemma demo1_val:
  "demo1 = (constructor 1 9 demoLedger)\<lparr>users := (\<lambda>_. zeroUser)(2 :=
     \<lparr>userAddress = 2, role = MATCHMAKER, totalRewardsEarned = 0,
      userSuccessfulMatches = 0, isActive = True\<rparr>)\<rparr>"
  by (simp add: demo1_def demo0_def asAlice_def post_def registerUser_def constructor_def
      zeroUser_def)

lemma demo2_val:
  "demo2 = demo1\<lparr>matchCounter := 1, totalMatches := 1, matches := (\<lambda>_. zeroMatch)(0 :=
     \<lparr>matchId = 0, matchmaker = 2, peer1 = 5, peer2 = 6, rewardAmount = REWARD_AMOUNT,
      isVerified = False, createdAt = 1700000000, completedAt = 0\<rparr>)\<rparr>"
  by (simp add: demo2_def demo1_val asAlice_def post_def createMatch_def checked_add_def
      constructor_def uint256_max_val)

lemma demo2_fields:
  "thisAddress demo2 = 9"
  "balances (rewardToken demo2) 9 = 0"
  "matchCounter demo2 = 1"
  "matches demo2 0 = \<lparr>matchId = 0, matchmaker = 2, peer1 = 5, peer2 = 6,
      rewardAmount = REWARD_AMOUNT, isVerified = False, createdAt = 1700000000, completedAt = 0\<rparr>"
  "verifiers demo2 1"
  "successfulMatches demo2 = 0"
  by (simp_all add: demo2_val demo1_val constructor_def demoLedger_def)

lemma valid_envs [simp]:
  "valid_env w asDeployer = (thisAddress w \<noteq> 1)"
  "valid_env w asAlice = (thisAddress w \<noteq> 2)"
  "valid_env w asBob = (thisAddress w \<noteq> 3)"
  by (auto simp: valid_env_def asDeployer_def asAlice_def asBob_def uint256_max_val)

lemma demo_thisAddress [simp]:
  "thisAddress demo0 = 9" "thisAddress demo1 = 9" "thisAddress demo2 = 9"
  "thisAddress demo3 = 9" "thisAddress demo4 = 9"
  "thisAddress demoV = 9" "thisAddress demoV2 = 9" "thisAddress demoA = 9"
  by (simp_all add: demo0_def demo1_def demo2_def demo3_def demo4_def demoV_def demoV2_def
      demoA_def constructor_def del: exec.simps)

lemma reachable_demo0: "reachable demo0"
  unfolding demo0_def by (rule reachable.deployed) simp_all

lemma reachable_demo1: "reachable demo1"
  unfolding demo1_def by (rule reachable.called [OF reachable_demo0]) simp_all

lemma reachable_demo2: "reachable demo2"
  unfolding demo2_def by (rule reachable.called [OF reachable_demo1]) simp_all

lemma reachable_demo3: "reachable demo3"
  unfolding demo3_def
  by (rule reachable.called [OF reachable_demo2]) (simp_all add: uint256_max_val)

lemma reachable_demo4: "reachable demo4"
  unfolding demo4_def
  by (rule reachable.called [OF reachable_demo3]) (simp_all add: uint256_max_val)

lemma demoV_val:
  "demoV = demo0\<lparr>users := (\<lambda>_. zeroUser)(3 :=
     \<lparr>userAddress = 3, role = VERIFIER, totalRewardsEarned = 0,
      userSuccessfulMatches = 0, isActive = True\<rparr>), verifiers := ((\<lambda>_. False)(1 := True))(3 := True)\<rparr>"
  by (simp add: demoV_def demo0_def asBob_def post_def registerUser_def constructor_def)

lemma demoA_val:
  "demoA = demo0\<lparr>users := (\<lambda>_. zeroUser)(3 :=
     \<lparr>userAddress = 3, role = ADMIN, totalRewardsEarned = 0,
      userSuccessfulMatches = 0, isActive = True\<rparr>)\<rparr>"
  by (simp add: demoA_def demo0_def asBob_def post_def registerUser_def constructor_def)

lemma demoV2_val:
  "demoV2 = demoV\<lparr>users := (\<lambda>_. zeroUser)(3 :=
     \<lparr>userAddress = 3, role = ADMIN, totalRewardsEarned = 0,
      userSuccessfulMatches = 0, isActive = True\<rparr>)\<rparr>"
  by (simp add: demoV2_def demoV_val demo0_def asDeployer_def post_def assignRole_def constructor_def)

lemma REWARD_AMOUNT_val: "REWARD_AMOUNT = 100000000000000000000"
  by (simp add: REWARD_AMOUNT_def)

lemma demo3_val:
  "demo3 = demo2\<lparr>rewardToken := demoLedger\<lparr>balances := ((\<lambda>_. 0)(1 := 500 * 10 ^ 18))(9 := 500 * 10 ^ 18)\<rparr>\<rparr>"
  by (simp add: demo3_def demo2_val demo1_val asDeployer_def post_def onToken_def transfer_def
      constructor_def demoLedger_def Let_def)

lemma demo4_val:
  "demo4 = demo3\<lparr>
     matches := (\<lambda>_. zeroMatch)(0 :=
       \<lparr>matchId = 0, matchmaker = 2, peer1 = 5, peer2 = 6, rewardAmount = REWARD_AMOUNT,
        isVerified = True, createdAt = 1700000000, completedAt = 1700000000\<rparr>),
     successfulMatches := 1,
     users := (\<lambda>_. zeroUser)(2 :=
       \<lparr>userAddress = 2, role = MATCHMAKER, totalRewardsEarned = REWARD_AMOUNT,
        userSuccessfulMatches = 1, isActive = True\<rparr>),
     rewardToken := demoLedger\<lparr>balances :=
       (((\<lambda>_. 0)(1 := 500 * 10 ^ 18))(9 := 400 * 10 ^ 18))(2 := 100 * 10 ^ 18)\<rparr>\<rparr>"
  by (simp add: demo4_def demo3_val demo2_val demo1_val asDeployer_def post_def verifyMatch_def
      distributeReward_def checked_add_def balanceOf_def transfer_def
      constructor_def demoLedger_def Let_def uint256_max_val REWARD_AMOUNT_val)

lemma inactive_exec:
  "registry_inv w \<Longrightarrow> \<not> isActive (users w a) \<Longrightarrow> \<not> registers a c e w \<Longrightarrow>
   \<not> isActive (users (exec c e w) a)"
  by (cases c)
    (auto simp: registry_inv_def post_def succeeds_def op_defs Let_def
      split: sum.splits if_splits)

lemma inactive_run:
  "registry_inv w \<Longrightarrow> valid_trace w tr \<Longrightarrow> \<not> isActive (users w a) \<Longrightarrow>
   \<not> ever_registered a w tr \<Longrightarrow> \<not> isActive (users (run tr w) a)"
proof (induction tr arbitrary: w)
  case Nil
  then show ?case by simp
next
  case (Cons ce rest)
  then show ?case
    using registry_inv_exec inactive_exec by simp
qed

lemma registry_inv_run: "registry_inv w \<Longrightarrow> valid_trace w tr \<Longrightarrow> registry_inv (run tr w)"
  by (induction tr arbitrary: w) (auto intro: registry_inv_exec)

lemma sum_move:
  fixes f :: "address \<Rightarrow> nat"
  assumes "x \<noteq> y" and "n \<le> f x"
  shows "(\<Sum>a\<in>UNIV. ((f(x := f x - n))(y := f y + n)) a) = (\<Sum>a\<in>UNIV. f a)"
proof -
  let ?g = "(f(x := f x - n))(y := f y + n)"
  have r: "UNIV = insert x (insert y (UNIV - {x, y}))" by auto
  have "sum ?g UNIV = ?g x + ?g y + sum ?g (UNIV - {x, y})"
    using assms(1) by (subst r) simp
  also have "sum ?g (UNIV - {x, y}) = sum f (UNIV - {x, y})"
    by (rule sum.cong) auto
  also have "?g x + ?g y + sum f (UNIV - {x, y}) = f x + f y + sum f (UNIV - {x, y})"
    using assms by simp
  also have "\<dots> = sum f UNIV"
    using assms(1) by (subst (2) r) simp
  finally show ?thesis .
qed

lemma transfer_Inr:
  "transfer src to amount l = Inr l' \<Longrightarrow>
     to \<noteq> 0 \<and> amount \<le> balances l src \<and>
     l' = l\<lparr>balances := ((balances l)(src := balances l src - amount))
                          (to := ((balances l)(src := balances l src - amount)) to + amount)\<rparr>"
  by (auto simp: transfer_def Let_def split: if_splits)

lemma demo4_succ: "verifyMatch 0 asDeployer demo3 = Inr ((), demo4)"
  unfolding demo4_val
  by (simp add: demo3_val demo2_val demo1_val asDeployer_def post_def verifyMatch_def
      distributeReward_def checked_add_def balanceOf_def transfer_def
      constructor_def demoLedger_def Let_def uint256_max_val REWARD_AMOUNT_val)

lemma isActive_exec: "isActive (users w a) \<Longrightarrow> isActive (users (exec c e w) a)"
  by (cases c) (auto simp: post_def op_defs Let_def split: sum.splits if_splits)

lemma verified_allocated: "registry_inv w \<Longrightarrow> isVerified (matches w m) \<Longrightarrow> m < matchCounter w"
  unfolding registry_inv_def by (metis zeroMatch_simps(1))

lemma unverified_exec:
  "registry_inv w \<Longrightarrow> \<not> isVerified (matches w m) \<Longrightarrow>
   \<not> (c = VerifyMatch m \<and> succeeds (verifyMatch m e) w) \<Longrightarrow>
   \<not> isVerified (matches (exec c e w) m)"
  by (cases c)
    (auto simp: post_def succeeds_def op_defs Let_def split: sum.splits if_splits)

lemma verified_exec:
  "registry_inv w \<Longrightarrow> isVerified (matches w m) \<Longrightarrow>
   isVerified (matches (exec c e w) m) \<and>
   completedAt (matches (exec c e w) m) = completedAt (matches w m)"
  using verified_allocated [of w m]
  by (cases c)
    (auto simp: post_def op_defs Let_def split: sum.splits if_splits)

lemma verifyMatch_Inr:
  "verifyMatch m e w = Inr ((), w') \<Longrightarrow>
   \<not> isVerified (matches w m) \<and> isVerified (matches w' m) \<and>
   completedAt (matches w' m) = block_timestamp e"
  by (auto simp: verifyMatch_def distributeReward_def Let_def split: sum.splits if_splits)

lemma demo4_fields:
  "isVerified (matches demo4 0)" "verifiers demo4 1" "\<not> verifiers demo4 3"
  "completedAt (matches demo4 0) = 1700000000" "matchCounter demo4 = 1"
  by (simp_all add: demo4_val demo3_val demo2_val demo1_val constructor_def)

lemma createMatch_Inr:
  "createMatch p1 p2 e w = Inr (i, w') \<Longrightarrow>
     i = matchCounter w \<and>
     w' = w\<lparr>matchCounter := matchCounter w + 1, totalMatches := totalMatches w + 1,
            matches := (matches w)(matchCounter w :=
              \<lparr>matchId = matchCounter w, matchmaker = msg_sender e, peer1 = p1, peer2 = p2,
               rewardAmount = REWARD_AMOUNT, isVerified = False,
               createdAt = block_timestamp e, completedAt = 0\<rparr>)\<rparr>"
  by (auto simp: createMatch_def checked_add_def Let_def split: if_splits)

lemma createMatch_succeeds_iff:
  "(\<exists>i w'. createMatch p1 p2 e w = Inr (i, w')) =
   (isActive (users w (msg_sender e)) \<and> role (users w (msg_sender e)) = MATCHMAKER \<and>
    p1 \<noteq> 0 \<and> p2 \<noteq> 0 \<and> p1 \<noteq> p2 \<and>
    matchCounter w < uint256_max \<and> totalMatches w < uint256_max)"
  by (auto simp: createMatch_def checked_add_def Let_def)

lemma matchCounter_exec:
  "matchCounter (exec c e w) =
    (case c of
       CreateMatch p1 p2 \<Rightarrow>
         (case createMatch p1 p2 e w of Inl _ \<Rightarrow> matchCounter w | Inr _ \<Rightarrow> matchCounter w + 1)
     | _ \<Rightarrow> matchCounter w)"
  by (cases c)
    (auto simp: post_def op_defs Let_def split: sum.splits if_splits)

lemma matchCounter_run_mono: "matchCounter w \<le> matchCounter (run tr w)"
proof (induction tr arbitrary: w)
  case Nil
  then show ?case by simp
next
  case (Cons ce rest)
  have "matchCounter w \<le> matchCounter (exec (fst ce) (snd ce) w)"
    by (simp add: matchCounter_exec split: call.splits sum.splits)
  also have "\<dots> \<le> matchCounter (run rest (exec (fst ce) (snd ce) w))"
    by (rule Cons.IH)
  finally show ?case by simp
qed

lemma created_ids_run: "created_ids w tr = [matchCounter w ..< matchCounter (run tr w)]"
proof (induction tr arbitrary: w)
  case Nil
  then show ?case by simp
next
  case (Cons ce rest)
  let ?w1 = "exec (fst ce) (snd ce) w"
  have ih: "created_ids ?w1 rest = [matchCounter ?w1 ..< matchCounter (run rest ?w1)]"
    by (rule Cons.IH)
  have mono: "matchCounter ?w1 \<le> matchCounter (run rest ?w1)"
    by (rule matchCounter_run_mono)
  show ?case
  proof (cases "\<exists>p1 p2 i w'. fst ce = CreateMatch p1 p2 \<and> createMatch p1 p2 (snd ce) w = Inr (i, w')")
    case True
    then obtain p1 p2 i w' where c: "fst ce = CreateMatch p1 p2"
      and r: "createMatch p1 p2 (snd ce) w = Inr (i, w')" by blast
    have i: "i = matchCounter w" using r by (simp add: createMatch_Inr)
    have s: "matchCounter ?w1 = Suc (matchCounter w)"
      using c r by (simp add: matchCounter_exec del: exec.simps)
    have "[matchCounter w ..< matchCounter (run rest ?w1)] =
        matchCounter w # [Suc (matchCounter w) ..< matchCounter (run rest ?w1)]"
      using mono s by (simp add: upt_conv_Cons)
    then show ?thesis
      using c r i s ih by (simp del: exec.simps)
  next
    case False
    then have s: "matchCounter ?w1 = matchCounter w"
      by (auto simp: matchCounter_exec split: call.splits sum.splits)
    have "(case fst ce of
       CreateMatch p1 p2 \<Rightarrow>
         (case createMatch p1 p2 (snd ce) w of Inl _ \<Rightarrow> [] | Inr (i, _) \<Rightarrow> [i])
     | _ \<Rightarrow> []) = []"
      using False by (auto split: call.splits sum.splits)
    then show ?thesis
      using s ih by (simp del: exec.simps)
  qed
qed

lemma matchCounter_run_le: "matchCounter (run tr w) \<le> matchCounter w + length tr"
proof (induction tr arbitrary: w)
  case Nil
  then show ?case by simp
next
  case (Cons ce rest)
  have "matchCounter (run rest (exec (fst ce) (snd ce) w)) \<le>
      matchCounter (exec (fst ce) (snd ce) w) + length rest"
    by (rule Cons.IH)
  moreover have "matchCounter (exec (fst ce) (snd ce) w) \<le> matchCounter w + 1"
    by (simp add: matchCounter_exec split: call.splits sum.splits)
  ultimately show ?case by simp
qed

lemma successfulMatches_exec_le: "successfulMatches (exec c e w) \<le> successfulMatches w + 1"
  by (cases c) (auto simp: post_def op_defs Let_def split: sum.splits if_splits)

lemma successfulMatches_run_le:
  "successfulMatches (run tr w) \<le> successfulMatches w + length tr"
proof (induction tr arbitrary: w)
  case Nil
  then show ?case by simp
next
  case (Cons ce rest)
  have "successfulMatches (run rest (exec (fst ce) (snd ce) w)) \<le>
      successfulMatches (exec (fst ce) (snd ce) w) + length rest"
    by (rule Cons.IH)
  moreover have "successfulMatches (exec (fst ce) (snd ce) w) \<le> successfulMatches w + 1"
    by (rule successfulMatches_exec_le)
  ultimately show ?case by (simp del: exec.simps)
qed

section \<open>Verification aborted by an empty reward pool\<close>

text \<open>
  Claim C1. If the registry's token balance is less than the reward amount of match
  \<open>m\<close>, then \<open>verifyMatch m\<close> fails, whoever calls it, and the state after the call is
  the state before it: the verified flag, the completion time, the counter of
  verified matches and the matchmaker's record are all as they were. When the call
  gets as far as the reward distribution (the caller is a verifier, the match exists
  and is unverified), it has by then marked the match verified and incremented the
  counter, and it is the balance check of \<open>_distributeReward\<close> that rejects the call.
\<close>

theorem verifyMatch_insufficient_balance:
  assumes "balanceOf (thisAddress w) (rewardToken w) < rewardAmount (matches w m)"
  shows "(\<exists>err. verifyMatch m e w = Inl err) \<and> post (verifyMatch m e) w = w \<and>
    (verifiers w (msg_sender e) \<and> m < matchCounter w \<and> \<not> isVerified (matches w m) \<and>
     createdAt (matches w m) \<noteq> 0 \<and> successfulMatches w < uint256_max \<longrightarrow>
       verifyMatch m e w = distributeReward m (markVerified m e w) \<and>
       isVerified (matches (markVerified m e w) m) \<and>
       successfulMatches (markVerified m e w) = successfulMatches w + 1 \<and>
       distributeReward m (markVerified m e w) = Inl (Require ''Insufficient reward token balance''))"
proof -
  have fails: "\<exists>err. verifyMatch m e w = Inl err"
    using assms
    by (simp add: verifyMatch_def distributeReward_def checked_add_def balanceOf_def Let_def)
  then have "post (verifyMatch m e) w = w"
    by (auto simp: post_def)
  moreover have "distributeReward m (markVerified m e w) =
      Inl (Require ''Insufficient reward token balance'')"
    using assms by (simp add: distributeReward_def markVerified_def balanceOf_def Let_def)
  moreover have "verifiers w (msg_sender e) \<and> m < matchCounter w \<and>
      \<not> isVerified (matches w m) \<and> createdAt (matches w m) \<noteq> 0 \<and>
      successfulMatches w < uint256_max \<longrightarrow>
        verifyMatch m e w = distributeReward m (markVerified m e w)"
    by (simp add: verifyMatch_def markVerified_def checked_add_def Let_def)
  ultimately show ?thesis
    using fails by (simp add: markVerified_def)
qed

theorem verifyMatch_insufficient_balance_witness:
  "balanceOf (thisAddress demo2) (rewardToken demo2) < rewardAmount (matches demo2 0) \<and>
   verifyMatch 0 asDeployer demo2 = Inl (Require ''Insufficient reward token balance'') \<and>
   isVerified (matches (markVerified 0 asDeployer demo2) 0) \<and>
   \<not> isVerified (matches (post (verifyMatch 0 asDeployer) demo2) 0) \<and>
   post (verifyMatch 0 asDeployer) demo2 = demo2"
proof -
  have h: "balanceOf (thisAddress demo2) (rewardToken demo2) < rewardAmount (matches demo2 0)"
    by (simp add: balanceOf_def demo2_fields REWARD_AMOUNT_def)
  show ?thesis
    using h verifyMatch_insufficient_balance [OF h, of asDeployer]
    by (simp add: demo2_fields asDeployer_def uint256_max_val)
qed

section \<open>The verifier set only grows\<close>

text \<open>
  Claim C7. Membership in the verifier set is monotone: an address that is in the
  set before a call is in it after the call, whatever the call (\<open>registerUser\<close>,
  \<open>assignRole\<close>, \<open>createMatch\<close>, \<open>verifyMatch\<close>, \<open>fundRewards\<close>, \<open>withdrawTokens\<close>, a change
  of owner or a call on the ledger) and whether it succeeds or reverts. In particular
  a successful \<open>assignRole\<close> that gives a member of the set any role \<open>r\<close> stores \<open>r\<close> as
  its role and leaves it in the set, so that \<open>verifyMatch\<close> never rejects it for not
  being a verifier.
\<close>

theorem verifier_set_monotone:
  assumes "verifiers w a"
  shows "verifiers (exec c e w) a \<and>
    (\<forall>w'. assignRole a r e w = Inr ((), w') \<longrightarrow>
       verifiers w' a \<and> role (users w' a) = r \<and>
       (\<forall>m e'. msg_sender e' = a \<longrightarrow> verifyMatch m e' w' \<noteq> Inl (Require ''Only verifiers can verify matches'')))"
proof -
  have "verifiers (exec c e w) a"
    using assms
    by (cases c) (auto simp: post_def op_defs Let_def split: sum.splits if_splits)
  moreover have "\<forall>w'. assignRole a r e w = Inr ((), w') \<longrightarrow>
       verifiers w' a \<and> role (users w' a) = r \<and>
       (\<forall>m e'. msg_sender e' = a \<longrightarrow> verifyMatch m e' w' \<noteq> Inl (Require ''Only verifiers can verify matches''))"
    using assms
    by (auto simp: assignRole_def verifyMatch_def distributeReward_def checked_add_def transfer_def Let_def split: if_splits sum.splits)
  ultimately show ?thesis by simp
qed

theorem verifier_set_monotone_witness:
  "verifiers demoV 3 \<and> assignRole 3 ADMIN asDeployer demoV = Inr ((), demoV2) \<and>
   verifiers demoV2 3 \<and> role (users demoV2 3) = ADMIN \<and>
   verifiers (exec (AssignRole 3 ADMIN) asDeployer demoV) 3"
proof -
  have h: "verifiers demoV 3" by (simp add: demoV_val)
  have a: "assignRole 3 ADMIN asDeployer demoV = Inr ((), demoV2)"
    by (simp add: demoV2_val demoV_val demo0_def asDeployer_def assignRole_def constructor_def)
  show ?thesis
    using h a verifier_set_monotone [OF h, of "AssignRole 3 ADMIN" asDeployer ADMIN]
    by simp
qed

section \<open>The ADMIN role\<close>

text \<open>
  Claim C10. A caller whose record has role ADMIN and who is not in the verifier set
  can neither create nor verify a match: \<open>createMatch\<close> fails (on the role check when
  the record is active) and \<open>verifyMatch\<close> fails on the verifier check, and both leave
  the state as it was.
\<close>

theorem admin_role_no_rights:
  assumes "role (users w (msg_sender e)) = ADMIN" and "\<not> verifiers w (msg_sender e)"
  shows "(\<exists>err. createMatch p1 p2 e w = Inl err) \<and> post (createMatch p1 p2 e) w = w \<and>
    (isActive (users w (msg_sender e)) \<longrightarrow>
       createMatch p1 p2 e w = Inl (Require ''Only matchmakers can create matches'')) \<and>
    verifyMatch m e w = Inl (Require ''Only verifiers can verify matches'') \<and>
    post (verifyMatch m e) w = w"
  using assms by (simp add: createMatch_def verifyMatch_def post_def)

theorem admin_role_no_rights_witness:
  "demoA = post (registerUser ADMIN asBob) demo0 \<and>
   role (users demoA (msg_sender asBob)) = ADMIN \<and> \<not> verifiers demoA (msg_sender asBob) \<and>
   isActive (users demoA (msg_sender asBob)) \<and>
   createMatch 5 6 asBob demoA = Inl (Require ''Only matchmakers can create matches'') \<and>
   post (createMatch 5 6 asBob) demoA = demoA \<and>
   verifyMatch 0 asBob demoA = Inl (Require ''Only verifiers can verify matches'') \<and>
   post (verifyMatch 0 asBob) demoA = demoA"
proof -
  have h1: "role (users demoA (msg_sender asBob)) = ADMIN"
    by (simp add: demoA_val asBob_def)
  have h2: "\<not> verifiers demoA (msg_sender asBob)"
    by (simp add: demoA_val asBob_def demo0_def constructor_def)
  have h3: "isActive (users demoA (msg_sender asBob))"
    by (simp add: demoA_val asBob_def)
  show ?thesis
    using h1 h2 h3 admin_role_no_rights [OF h1 h2, of 5 6 0]
    by (simp add: demoA_def)
qed

section \<open>Reads of unknown identifiers\<close>

text \<open>
  Claim C8. The two reads differ on unknown identifiers. In a state reached from
  deployment by a sequence of calls in which \<open>a\<close> never registered successfully,
  \<open>getUserInfo a\<close> does not fail and returns the zero record (null address, role NONE,
  zero counters, not active). \<open>getMatchInfo m\<close> on an id that was never allocated
  (\<open>m\<close> not below the match counter) fails with "Invalid match ID", the
  specification's \<open>UnknownMatch\<close>. Neither read changes the state.
\<close>

theorem reads_of_unknown_identifiers:
  assumes "valid_trace (constructor d s tok) tr"
    and "\<not> ever_registered a (constructor d s tok) tr"
    and "w = run tr (constructor d s tok)"
  shows "getUserInfo a w = Inr (zeroUser, w) \<and> post (getUserInfo a) w = w \<and>
    (matchCounter w \<le> m \<longrightarrow> getMatchInfo m w = Inl (Require ''Invalid match ID'')) \<and>
    post (getMatchInfo m) w = w"
proof -
  have i: "registry_inv w"
    using assms(1,3) registry_inv_run registry_inv_constructor by simp
  have "\<not> isActive (users (constructor d s tok) a)"
    by (simp add: constructor_def)
  then have "\<not> isActive (users w a)"
    using assms inactive_run registry_inv_constructor by simp
  then have "users w a = zeroUser"
    using i by (simp add: registry_inv_def)
  then show ?thesis
    by (simp add: getUserInfo_def getMatchInfo_def post_def)
qed

theorem reads_of_unknown_identifiers_witness:
  "valid_trace (constructor 1 9 demoLedger) [(RegisterUser MATCHMAKER, asAlice), (CreateMatch 5 6, asAlice)] \<and>
   \<not> ever_registered 3 (constructor 1 9 demoLedger) [(RegisterUser MATCHMAKER, asAlice), (CreateMatch 5 6, asAlice)] \<and>
   demo2 = run [(RegisterUser MATCHMAKER, asAlice), (CreateMatch 5 6, asAlice)] (constructor 1 9 demoLedger) \<and>
   getUserInfo 3 demo2 = Inr (zeroUser, demo2) \<and>
   matchCounter demo2 \<le> 1 \<and>
   getMatchInfo 1 demo2 = Inl (Require ''Invalid match ID'')"
proof -
  have v: "valid_trace (constructor 1 9 demoLedger) [(RegisterUser MATCHMAKER, asAlice), (CreateMatch 5 6, asAlice)]"
    by (simp add: constructor_def del: exec.simps)
  have n: "\<not> ever_registered 3 (constructor 1 9 demoLedger) [(RegisterUser MATCHMAKER, asAlice), (CreateMatch 5 6, asAlice)]"
    by (simp add: asAlice_def)
  have r: "demo2 = run [(RegisterUser MATCHMAKER, asAlice), (CreateMatch 5 6, asAlice)] (constructor 1 9 demoLedger)"
    by (simp add: demo2_def demo1_def demo0_def)
  show ?thesis
    using v n r reads_of_unknown_identifiers [OF v n r, of 1]
    by (simp add: demo2_fields)
qed

section \<open>The two match counters\<close>

text \<open>
  Claim C9. Both counters are 0 at deployment. In every reachable state the match
  id counter equals the total-matches counter, and this number is the number of
  allocated match records: the records
  with a creation time are exactly those with an id below the counter, and every
  other id still reads as the zero record. A call either leaves both counters as
  they are or is a successful \<open>createMatch\<close> and increments both by one.
\<close>

theorem counters_agree:
  assumes "reachable w"
  shows "matchCounter (constructor d s tok) = 0 \<and> totalMatches (constructor d s tok) = 0 \<and>
    matchCounter w = totalMatches w \<and>
    {m. createdAt (matches w m) \<noteq> 0} = {..<totalMatches w} \<and>
    card {m. createdAt (matches w m) \<noteq> 0} = totalMatches w \<and>
    (\<forall>m. (matches w m \<noteq> zeroMatch) = (m < matchCounter w)) \<and>
    (matchCounter (exec c e w) = matchCounter w \<and> totalMatches (exec c e w) = totalMatches w \<or>
     (\<exists>p1 p2. c = CreateMatch p1 p2 \<and> succeeds (createMatch p1 p2 e) w) \<and>
       matchCounter (exec c e w) = matchCounter w + 1 \<and>
       totalMatches (exec c e w) = totalMatches w + 1)"
proof -
  have i: "registry_inv w" using assms by (rule reachable_inv)
  have eq: "matchCounter w = totalMatches w"
    using i by (simp add: registry_inv_def)
  have "\<And>m. (createdAt (matches w m) \<noteq> 0) = (m < matchCounter w)"
    using i unfolding registry_inv_def by (metis zeroMatch_simps(3))
  then have alloc: "{m. createdAt (matches w m) \<noteq> 0} = {..<totalMatches w}"
    using eq by auto
  have nz: "\<forall>m. (matches w m \<noteq> zeroMatch) = (m < matchCounter w)"
    using i unfolding registry_inv_def by (metis zeroMatch_simps(3))
  have step: "matchCounter (exec c e w) = matchCounter w \<and> totalMatches (exec c e w) = totalMatches w \<or>
     (\<exists>p1 p2. c = CreateMatch p1 p2 \<and> succeeds (createMatch p1 p2 e) w) \<and>
       matchCounter (exec c e w) = matchCounter w + 1 \<and>
       totalMatches (exec c e w) = totalMatches w + 1"
    by (cases c)
      (auto simp: post_def succeeds_def op_defs Let_def split: sum.splits if_splits)
  have "matchCounter (constructor d s tok) = 0 \<and> totalMatches (constructor d s tok) = 0"
    by (simp add: constructor_def)
  then show ?thesis
    using eq alloc nz step by simp
qed

theorem counters_agree_witness:
  "reachable demo2 \<and> matchCounter demo2 = totalMatches demo2 \<and> totalMatches demo2 = 1 \<and>
   card {m. createdAt (matches demo2 m) \<noteq> 0} = 1"
proof -
  have t: "totalMatches demo2 = 1"
    by (simp add: demo2_val)
  have "matchCounter demo2 = totalMatches demo2 \<and>
      card {m. createdAt (matches demo2 m) \<noteq> 0} = totalMatches demo2"
    using counters_agree [OF reachable_demo2, of 1 9 demoLedger RenounceOwnership asBob]
    by blast
  then show ?thesis
    using t reachable_demo2 by simp
qed

section \<open>The reward paid by a verification\<close>

text \<open>
  Claim C3. A successful \<open>verifyMatch\<close> in a reachable state moves exactly the fixed
  reward, 100 * 10^18 units: the matchmaker's ledger balance grows by it, the
  registry's ledger balance shrinks by it, the matchmaker's \<open>totalRewardsEarned\<close> grows
  by it, no other balance changes, and the total supply (the recorded one and the
  sum of all balances) is as before.
\<close>

theorem verifyMatch_moves_fixed_reward:
  assumes "reachable w" and "verifyMatch m e w = Inr ((), w')"
  shows "REWARD_AMOUNT = 100 * 10 ^ 18 \<and>
    rewardAmount (matches w m) = REWARD_AMOUNT \<and>
    matchmaker (matches w m) \<noteq> thisAddress w \<and>
    REWARD_AMOUNT \<le> balances (rewardToken w) (thisAddress w) \<and>
    balances (rewardToken w') (matchmaker (matches w m)) =
      balances (rewardToken w) (matchmaker (matches w m)) + REWARD_AMOUNT \<and>
    balances (rewardToken w') (thisAddress w) =
      balances (rewardToken w) (thisAddress w) - REWARD_AMOUNT \<and>
    totalRewardsEarned (users w' (matchmaker (matches w m))) =
      totalRewardsEarned (users w (matchmaker (matches w m))) + REWARD_AMOUNT \<and>
    (\<forall>a. a \<noteq> matchmaker (matches w m) \<and> a \<noteq> thisAddress w \<longrightarrow>
       balances (rewardToken w') a = balances (rewardToken w) a) \<and>
    totalSupply (rewardToken w') = totalSupply (rewardToken w) \<and>
    (\<Sum>a\<in>UNIV. balances (rewardToken w') a) = (\<Sum>a\<in>UNIV. balances (rewardToken w) a)"
proof -
  let ?mm = "matchmaker (matches w m)"
  let ?b = "balances (rewardToken w)"
  have i: "registry_inv w" using assms(1) by (rule reachable_inv)
  have m: "m < matchCounter w"
    using assms(2) by (auto simp: verifyMatch_def split: if_splits)
  have ra: "rewardAmount (matches w m) = REWARD_AMOUNT" and ne: "?mm \<noteq> thisAddress w"
    using i m by (simp_all add: registry_inv_def)
  have bal: "REWARD_AMOUNT \<le> ?b (thisAddress w)"
    using assms(2) ra
    by (auto simp: verifyMatch_def distributeReward_def balanceOf_def Let_def
        split: if_splits sum.splits)
  have tok: "rewardToken w' = (rewardToken w)\<lparr>balances :=
      (?b(thisAddress w := ?b (thisAddress w) - REWARD_AMOUNT))(?mm := ?b ?mm + REWARD_AMOUNT)\<rparr>"
    using assms(2) ra ne
    by (auto simp: verifyMatch_def distributeReward_def balanceOf_def Let_def checked_add_def
        split: if_splits sum.splits dest!: transfer_Inr)
  have tre: "totalRewardsEarned (users w' ?mm) = totalRewardsEarned (users w ?mm) + REWARD_AMOUNT"
    using assms(2) ra
    by (auto simp: verifyMatch_def distributeReward_def balanceOf_def Let_def checked_add_def
        split: if_splits sum.splits)
  have total: "(\<Sum>a\<in>UNIV. balances (rewardToken w') a) = (\<Sum>a\<in>UNIV. ?b a)"
    unfolding tok using sum_move [of "thisAddress w" ?mm REWARD_AMOUNT ?b] ne bal by simp
  show ?thesis
    using ra ne bal tre total by (simp add: tok REWARD_AMOUNT_def)
qed

theorem verifyMatch_moves_fixed_reward_witness:
  "reachable demo3 \<and> verifyMatch 0 asDeployer demo3 = Inr ((), demo4) \<and>
   matchmaker (matches demo3 0) = 2 \<and> thisAddress demo3 = 9 \<and>
   balances (rewardToken demo3) 2 = 0 \<and> 
   balances (rewardToken demo4) 2 = 100 * 10 ^ 18 \<and>
   balances (rewardToken demo3) 9 = 500 * 10 ^ 18 \<and>
   balances (rewardToken demo4) 9 = 400 * 10 ^ 18 \<and>
   totalRewardsEarned (users demo4 2) = 100 * 10 ^ 18 \<and>
   (\<Sum>a\<in>UNIV. balances (rewardToken demo4) a) = (\<Sum>a\<in>UNIV. balances (rewardToken demo3) a)"
proof -
  have f: "matchmaker (matches demo3 0) = 2" "balances (rewardToken demo3) 2 = 0"
    "balances (rewardToken demo3) 9 = 500 * 10 ^ 18" "totalRewardsEarned (users demo3 2) = 0"
    by (simp_all add: demo3_val demo2_val demo1_val)
  show ?thesis
    using reachable_demo3 demo4_succ f
      verifyMatch_moves_fixed_reward [OF reachable_demo3 demo4_succ]
    by (simp add: REWARD_AMOUNT_val)
qed

section \<open>Registration\<close>

text \<open>
  Claim C6, as amended. \<open>registerUser r\<close> fails if \<open>r\<close> is NONE, with "Invalid role", and
  otherwise fails if the caller already has an active record, with "User already
  registered"; a failed call leaves the state as it was. An active record stays
  active under every call, so a second registration by the same identity always
  fails: with "User already registered" when the role passed is not NONE, with
  "Invalid role" when it is NONE, since the role is checked first. On success the
  caller's record is the caller's address, the role, zero rewards, zero successful
  matches and active; the caller is added to the verifier set when the role is
  VERIFIER, and nothing else changes.
\<close>

theorem registerUser_behaviour:
  "(r = NONE \<longrightarrow> registerUser r e w = Inl (Require ''Invalid role'')) \<and>
   (r \<noteq> NONE \<and> isActive (users w (msg_sender e)) \<longrightarrow>
      registerUser r e w = Inl (Require ''User already registered'')) \<and>
   (r = NONE \<or> isActive (users w (msg_sender e)) \<longrightarrow> post (registerUser r e) w = w) \<and>
   (r \<noteq> NONE \<and> \<not> isActive (users w (msg_sender e)) \<longrightarrow>
      registerUser r e w = Inr ((),
        w\<lparr>users := (users w)(msg_sender e :=
             \<lparr>userAddress = msg_sender e, role = r, totalRewardsEarned = 0,
              userSuccessfulMatches = 0, isActive = True\<rparr>),
          verifiers := (if r = VERIFIER then (verifiers w)(msg_sender e := True)
                        else verifiers w)\<rparr>)) \<and>
   (isActive (users w (msg_sender e)) \<longrightarrow> isActive (users (exec c e' w) (msg_sender e))) \<and>
   (\<forall>w'. registerUser r e w = Inr ((), w') \<longrightarrow>
      (\<exists>err. registerUser r' e w' = Inl err) \<and> post (registerUser r' e) w' = w')"
proof -
  have "isActive (users w (msg_sender e)) \<longrightarrow> isActive (users (exec c e' w) (msg_sender e))"
    by (simp add: isActive_exec)
  moreover have "\<forall>w'. registerUser r e w = Inr ((), w') \<longrightarrow>
      (\<exists>err. registerUser r' e w' = Inl err) \<and> post (registerUser r' e) w' = w'"
    by (auto simp: registerUser_def post_def Let_def split: if_splits)
  ultimately show ?thesis
    by (simp add: registerUser_def post_def)
qed

theorem registerUser_behaviour_witness:
  "\<not> isActive (users demo0 (msg_sender asAlice)) \<and>
   registerUser MATCHMAKER asAlice demo0 = Inr ((), demo1) \<and>
   users demo1 2 = \<lparr>userAddress = 2, role = MATCHMAKER, totalRewardsEarned = 0,
      userSuccessfulMatches = 0, isActive = True\<rparr> \<and>
   isActive (users demo1 (msg_sender asAlice)) \<and>
   registerUser VERIFIER asAlice demo1 = Inl (Require ''User already registered'') \<and>
   post (registerUser VERIFIER asAlice) demo1 = demo1 \<and>
   registerUser NONE asBob demo1 = Inl (Require ''Invalid role'')"
proof -
  have a: "\<not> isActive (users demo0 (msg_sender asAlice))"
    by (simp add: demo0_def constructor_def)
  have b: "isActive (users demo1 (msg_sender asAlice))"
    by (simp add: demo1_val asAlice_def)
  have d: "registerUser MATCHMAKER asAlice demo0 = Inr ((), demo1)"
    by (simp add: demo1_val demo0_def registerUser_def asAlice_def constructor_def zeroUser_def)
  have u: "users demo1 2 = \<lparr>userAddress = 2, role = MATCHMAKER, totalRewardsEarned = 0,
      userSuccessfulMatches = 0, isActive = True\<rparr>"
    by (simp add: demo1_val)
  have "registerUser VERIFIER asAlice demo1 = Inl (Require ''User already registered'') \<and>
      post (registerUser VERIFIER asAlice) demo1 = demo1"
    using b registerUser_behaviour [of VERIFIER asAlice demo1] by blast
  moreover have "registerUser NONE asBob demo1 = Inl (Require ''Invalid role'')"
    using registerUser_behaviour [of NONE asBob demo1] by blast
  ultimately show ?thesis
    using a b d u by blast
qed

text \<open>
  The claim as first stated has every second registration fail with
  \<open>AlreadyRegistered\<close>. Alice registers as matchmaker and then calls \<open>registerUser\<close>
  with role NONE: the call fails with "Invalid role".
\<close>

theorem second_registration_counterexample:
  "registerUser MATCHMAKER asAlice demo0 = Inr ((), demo1) \<and>
   registerUser NONE asAlice demo1 = Inl (Require ''Invalid role'') \<and>
   registerUser NONE asAlice demo1 \<noteq> Inl (Require ''User already registered'')"
  by (simp add: demo1_val demo0_def registerUser_def asAlice_def constructor_def zeroUser_def)

section \<open>A match is verified once\<close>

text \<open>
  Claim C2, as amended. In a reachable state: a match just created is unverified
  with completion time 0; an unverified match has completion time 0 and stays so
  under every call but a successful \<open>verifyMatch\<close> on its id; that call sets the flag
  and a nonzero completion time; a verified match keeps its flag and its completion
  time under every call; and \<open>verifyMatch\<close> on a verified match fails and leaves the
  state (balances and counters included) as it was, with "Match already verified"
  when the caller is in the verifier set and with "Only verifiers can verify
  matches" when it is not.
\<close>

theorem match_verified_once:
  assumes "reachable w" and "valid_env w e"
  shows "(\<forall>p1 p2 i w'. createMatch p1 p2 e w = Inr (i, w') \<longrightarrow>
       \<not> isVerified (matches w' i) \<and> completedAt (matches w' i) = 0) \<and>
    (\<not> isVerified (matches w m) \<longrightarrow> completedAt (matches w m) = 0) \<and>
    (\<not> isVerified (matches w m) \<and> \<not> (c = VerifyMatch m \<and> succeeds (verifyMatch m e) w) \<longrightarrow>
       \<not> isVerified (matches (exec c e w) m) \<and> completedAt (matches (exec c e w) m) = 0) \<and>
    (\<forall>w'. verifyMatch m e w = Inr ((), w') \<longrightarrow>
       \<not> isVerified (matches w m) \<and> isVerified (matches w' m) \<and>
       completedAt (matches w' m) = block_timestamp e \<and> completedAt (matches w' m) \<noteq> 0) \<and>
    (isVerified (matches w m) \<longrightarrow>
       isVerified (matches (exec c e w) m) \<and>
       completedAt (matches (exec c e w) m) = completedAt (matches w m) \<and>
       completedAt (matches w m) \<noteq> 0) \<and>
    (isVerified (matches w m) \<longrightarrow>
       verifyMatch m e w =
         Inl (Require (if verifiers w (msg_sender e) then ''Match already verified''
                       else ''Only verifiers can verify matches'')) \<and>
       post (verifyMatch m e) w = w)"
proof -
  have i: "registry_inv w" using assms(1) by (rule reachable_inv)
  have i': "registry_inv (exec c e w)" using i assms(2) by (rule registry_inv_exec)
  have p1: "\<forall>p1 p2 i w'. createMatch p1 p2 e w = Inr (i, w') \<longrightarrow>
       \<not> isVerified (matches w' i) \<and> completedAt (matches w' i) = 0"
    by (auto simp: createMatch_def Let_def split: sum.splits if_splits)
  have p2: "\<not> isVerified (matches w m) \<longrightarrow> completedAt (matches w m) = 0"
    using i by (simp add: registry_inv_def)
  have p3: "\<not> isVerified (matches w m) \<and> \<not> (c = VerifyMatch m \<and> succeeds (verifyMatch m e) w) \<longrightarrow>
       \<not> isVerified (matches (exec c e w) m) \<and> completedAt (matches (exec c e w) m) = 0"
    using unverified_exec [OF i, of m c e] i' by (auto simp: registry_inv_def)
  have p4: "\<forall>w'. verifyMatch m e w = Inr ((), w') \<longrightarrow>
       \<not> isVerified (matches w m) \<and> isVerified (matches w' m) \<and>
       completedAt (matches w' m) = block_timestamp e \<and> completedAt (matches w' m) \<noteq> 0"
    using assms(2) by (auto simp: valid_env_def dest!: verifyMatch_Inr)
  have p5: "isVerified (matches w m) \<longrightarrow>
       isVerified (matches (exec c e w) m) \<and>
       completedAt (matches (exec c e w) m) = completedAt (matches w m) \<and>
       completedAt (matches w m) \<noteq> 0"
    using verified_exec [OF i, of m c e] i by (auto simp: registry_inv_def)
  have p6: "isVerified (matches w m) \<longrightarrow>
       verifyMatch m e w =
         Inl (Require (if verifiers w (msg_sender e) then ''Match already verified''
                       else ''Only verifiers can verify matches'')) \<and>
       post (verifyMatch m e) w = w"
    using verified_allocated [OF i, of m] by (simp add: verifyMatch_def post_def)
  show ?thesis
    using p1 p2 p3 p4 p5 p6 by blast
qed

theorem match_verified_once_witness:
  "reachable demo3 \<and> valid_env demo3 asDeployer \<and>
   \<not> isVerified (matches demo3 0) \<and> completedAt (matches demo3 0) = 0 \<and>
   verifyMatch 0 asDeployer demo3 = Inr ((), demo4) \<and>
   reachable demo4 \<and> valid_env demo4 asDeployer \<and>
   isVerified (matches demo4 0) \<and> completedAt (matches demo4 0) = 1700000000 \<and>
   verifyMatch 0 asDeployer demo4 = Inl (Require ''Match already verified'') \<and>
   post (verifyMatch 0 asDeployer) demo4 = demo4 \<and>
   isVerified (matches (exec (CreateMatch 5 6) asDeployer demo4) 0)"
proof -
  have v3: "valid_env demo3 asDeployer" and v4: "valid_env demo4 asDeployer"
    by simp_all
  have u: "\<not> isVerified (matches demo3 0)"
    by (simp add: demo3_val demo2_val)
  have a: "completedAt (matches demo3 0) = 0"
    using u match_verified_once [OF reachable_demo3 v3, of 0] by blast
  have b: "verifyMatch 0 asDeployer demo4 = Inl (Require ''Match already verified'') \<and>
      post (verifyMatch 0 asDeployer) demo4 = demo4 \<and>
      isVerified (matches (exec (CreateMatch 5 6) asDeployer demo4) 0)"
    using demo4_fields(1,2) match_verified_once [OF reachable_demo4 v4, of 0 "CreateMatch 5 6"]
    by (simp add: asDeployer_def)
  show ?thesis
    using v3 v4 u a b reachable_demo3 reachable_demo4 demo4_succ demo4_fields by simp
qed

text \<open>
  The claim as first stated has every later \<open>verifyMatch\<close> on the id fail with
  \<open>AlreadyVerified\<close>. Bob, who is not in the verifier set, calls \<open>verifyMatch\<close> on the
  verified match 0: the call fails on the verifier check, which comes first.
\<close>

theorem second_verifyMatch_counterexample:
  "verifyMatch 0 asDeployer demo3 = Inr ((), demo4) \<and> isVerified (matches demo4 0) \<and>
   verifyMatch 0 asBob demo4 = Inl (Require ''Only verifiers can verify matches'') \<and>
   verifyMatch 0 asBob demo4 \<noteq> Inl (Require ''Match already verified'')"
  using demo4_succ demo4_fields by (simp add: verifyMatch_def asBob_def)

section \<open>Creating a match\<close>

text \<open>
  Claim C5. In every reachable state whose match counter is below the largest
  \<open>uint256\<close>, \<open>createMatch p1 p2\<close> succeeds if and only if the caller is an active
  registered user with role MATCHMAKER, both peers are non-null, and the peers
  differ. The counter grows by at most one per call, so the bound holds in every
  state reached by fewer than 2^256 - 1 calls after deployment; the counter
  increments are overflow-checked, and in any state success is equivalent to the
  same conditions together with both counters being below the largest \<open>uint256\<close>.
  On success the call returns the current match counter as the id, stores under that
  id the record with the caller as matchmaker, the two peers, the fixed reward,
  verified false, the block time as creation time and completion time 0, increments
  the match counter and the total-matches counter by one and changes nothing else; a
  failed call changes nothing. The ids returned by the successful calls of any
  sequence of calls made after deployment are 0, 1, 2, ... in the order of the calls.
\<close>

theorem createMatch_behaviour:
  "((\<exists>i w'. createMatch p1 p2 e w = Inr (i, w')) =
     (isActive (users w (msg_sender e)) \<and> role (users w (msg_sender e)) = MATCHMAKER \<and>
      p1 \<noteq> 0 \<and> p2 \<noteq> 0 \<and> p1 \<noteq> p2 \<and>
      matchCounter w < uint256_max \<and> totalMatches w < uint256_max)) \<and>
   (reachable w \<longrightarrow>
     ((\<exists>i w'. createMatch p1 p2 e w = Inr (i, w')) =
      (isActive (users w (msg_sender e)) \<and> role (users w (msg_sender e)) = MATCHMAKER \<and>
       p1 \<noteq> 0 \<and> p2 \<noteq> 0 \<and> p1 \<noteq> p2 \<and> matchCounter w < uint256_max))) \<and>
   (\<forall>i w'. createMatch p1 p2 e w = Inr (i, w') \<longrightarrow>
      i = matchCounter w \<and>
      w' = w\<lparr>matchCounter := matchCounter w + 1, totalMatches := totalMatches w + 1,
             matches := (matches w)(matchCounter w :=
               \<lparr>matchId = matchCounter w, matchmaker = msg_sender e, peer1 = p1, peer2 = p2,
                rewardAmount = REWARD_AMOUNT, isVerified = False,
                createdAt = block_timestamp e, completedAt = 0\<rparr>)\<rparr>) \<and>
   ((\<forall>i w'. createMatch p1 p2 e w \<noteq> Inr (i, w')) \<longrightarrow> post (createMatch p1 p2 e) w = w) \<and>
   created_ids (constructor d s tok) tr = [0 ..< matchCounter (run tr (constructor d s tok))] \<and>
   (reachable w \<and> matchCounter w < uint256_max \<longrightarrow>
     ((\<exists>i w'. createMatch p1 p2 e w = Inr (i, w')) =
      (isActive (users w (msg_sender e)) \<and> role (users w (msg_sender e)) = MATCHMAKER \<and>
       p1 \<noteq> 0 \<and> p2 \<noteq> 0 \<and> p1 \<noteq> p2))) \<and>
   (length tr < uint256_max \<longrightarrow> matchCounter (run tr (constructor d s tok)) < uint256_max)"
proof -
  have a: "(\<exists>i w'. createMatch p1 p2 e w = Inr (i, w')) =
     (isActive (users w (msg_sender e)) \<and> role (users w (msg_sender e)) = MATCHMAKER \<and>
      p1 \<noteq> 0 \<and> p2 \<noteq> 0 \<and> p1 \<noteq> p2 \<and>
      matchCounter w < uint256_max \<and> totalMatches w < uint256_max)"
    by (rule createMatch_succeeds_iff)
  have b: "reachable w \<longrightarrow> matchCounter w = totalMatches w"
    using reachable_inv by (auto simp: registry_inv_def)
  have c: "\<forall>i w'. createMatch p1 p2 e w = Inr (i, w') \<longrightarrow>
      i = matchCounter w \<and>
      w' = w\<lparr>matchCounter := matchCounter w + 1, totalMatches := totalMatches w + 1,
             matches := (matches w)(matchCounter w :=
               \<lparr>matchId = matchCounter w, matchmaker = msg_sender e, peer1 = p1, peer2 = p2,
                rewardAmount = REWARD_AMOUNT, isVerified = False,
                createdAt = block_timestamp e, completedAt = 0\<rparr>)\<rparr>"
    using createMatch_Inr by blast
  have d: "(\<forall>i w'. createMatch p1 p2 e w \<noteq> Inr (i, w')) \<longrightarrow> post (createMatch p1 p2 e) w = w"
    by (auto simp: post_def split: sum.splits)
  have e: "created_ids (constructor d s tok) tr = [0 ..< matchCounter (run tr (constructor d s tok))]"
    by (simp add: created_ids_run constructor_def)
  have f: "reachable w \<longrightarrow>
     ((\<exists>i w'. createMatch p1 p2 e w = Inr (i, w')) =
      (isActive (users w (msg_sender e)) \<and> role (users w (msg_sender e)) = MATCHMAKER \<and>
       p1 \<noteq> 0 \<and> p2 \<noteq> 0 \<and> p1 \<noteq> p2 \<and> matchCounter w < uint256_max))"
    using b unfolding a by auto
  have g: "reachable w \<and> matchCounter w < uint256_max \<longrightarrow>
     ((\<exists>i w'. createMatch p1 p2 e w = Inr (i, w')) =
      (isActive (users w (msg_sender e)) \<and> role (users w (msg_sender e)) = MATCHMAKER \<and>
       p1 \<noteq> 0 \<and> p2 \<noteq> 0 \<and> p1 \<noteq> p2))"
    using f by auto
  have "matchCounter (run tr (constructor d s tok)) \<le> length tr"
    using matchCounter_run_le [of tr "constructor d s tok"] by (simp add: constructor_def)
  then have h: "length tr < uint256_max \<longrightarrow>
      matchCounter (run tr (constructor d s tok)) < uint256_max"
    by simp
  show ?thesis
    using a f c d e g h by blast
qed

theorem createMatch_behaviour_witness:
  "reachable demo1 \<and> matchCounter demo1 < uint256_max \<and>
   isActive (users demo1 (msg_sender asAlice)) \<and>
   role (users demo1 (msg_sender asAlice)) = MATCHMAKER \<and>
   createMatch 5 6 asAlice demo1 = Inr (0, demo2) \<and>
   matches demo2 0 = \<lparr>matchId = 0, matchmaker = 2, peer1 = 5, peer2 = 6,
      rewardAmount = REWARD_AMOUNT, isVerified = False, createdAt = 1700000000, completedAt = 0\<rparr> \<and>
   totalMatches demo2 = totalMatches demo1 + 1 \<and>
   created_ids demo0 [(RegisterUser MATCHMAKER, asAlice), (CreateMatch 5 6, asAlice),
      (CreateMatch 0 6, asAlice), (CreateMatch 5 6, asAlice)] = [0, 1]"
proof -
  have c: "isActive (users demo1 (msg_sender asAlice))"
    "role (users demo1 (msg_sender asAlice)) = MATCHMAKER" "matchCounter demo1 < uint256_max"
    "totalMatches demo1 < uint256_max" "matchCounter demo1 = 0" "totalMatches demo1 = 0"
    by (simp_all add: demo1_val asAlice_def constructor_def uint256_max_val)
  note t = createMatch_behaviour [of 5 6 asAlice demo1 1 9 demoLedger
      "[(RegisterUser MATCHMAKER, asAlice), (CreateMatch 5 6, asAlice),
        (CreateMatch 0 6, asAlice), (CreateMatch 5 6, asAlice)]"]
  note t3 = t [THEN conjunct2, THEN conjunct2, THEN conjunct1]
  note t5 = t [THEN conjunct2, THEN conjunct2, THEN conjunct2, THEN conjunct2, THEN conjunct1]
  note t6 = t [THEN conjunct2, THEN conjunct2, THEN conjunct2, THEN conjunct2, THEN conjunct2,
      THEN conjunct1]
  have "(\<exists>i w'. createMatch 5 6 asAlice demo1 = Inr (i, w')) =
      (isActive (users demo1 (msg_sender asAlice)) \<and>
       role (users demo1 (msg_sender asAlice)) = MATCHMAKER \<and>
       (5 :: address) \<noteq> 0 \<and> (6 :: address) \<noteq> 0 \<and> (5 :: address) \<noteq> 6)"
    using t6 reachable_demo1 c(3) by blast
  then have "\<exists>i w'. createMatch 5 6 asAlice demo1 = Inr (i, w')"
    using c by simp
  then obtain i w' where r: "createMatch 5 6 asAlice demo1 = Inr (i, w')"
    by blast
  then have "i = matchCounter demo1 \<and>
      w' = demo1\<lparr>matchCounter := matchCounter demo1 + 1, totalMatches := totalMatches demo1 + 1,
             matches := (matches demo1)(matchCounter demo1 :=
               \<lparr>matchId = matchCounter demo1, matchmaker = msg_sender asAlice, peer1 = 5, peer2 = 6,
                rewardAmount = REWARD_AMOUNT, isVerified = False,
                createdAt = block_timestamp asAlice, completedAt = 0\<rparr>)\<rparr>"
    using t3 by blast
  then have "i = 0 \<and> w' = demo2"
    by (simp add: c(5,6) demo2_val asAlice_def) (simp add: demo1_val constructor_def)
  then have r': "createMatch 5 6 asAlice demo1 = Inr (0, demo2)"
    using r by simp
  have n: "matchCounter (run [(RegisterUser MATCHMAKER, asAlice), (CreateMatch 5 6, asAlice),
        (CreateMatch 0 6, asAlice), (CreateMatch 5 6, asAlice)] demo0) = 2"
    by (simp add: demo0_def constructor_def asAlice_def post_def registerUser_def createMatch_def
        checked_add_def uint256_max_val)
  have "created_ids demo0 [(RegisterUser MATCHMAKER, asAlice), (CreateMatch 5 6, asAlice),
      (CreateMatch 0 6, asAlice), (CreateMatch 5 6, asAlice)] = [0 ..< 2]"
    using t5 n by (simp only: demo0_def)
  also have "[0 ..< 2] = [0, Suc 0]"
    by (simp add: upt_rec)
  finally show ?thesis
    using reachable_demo1 c r' by (simp add: demo2_fields demo2_val)
qed

section \<open>Protocol statistics\<close>

text \<open>
  Claim C4. In every state in which \<open>successfulMatches * 100\<close> fits 256 bits,
  \<open>getProtocolStats\<close> returns the exact values of the two counters together with the
  rate \<open>floor (successfulMatches * 100 / totalMatches)\<close> when \<open>totalMatches\<close> is
  positive and the rate 0 when it is 0; the call never changes the state. The
  counter of verified matches grows by at most one per call, so the product fits in
  every state reached by no more than (2^256 - 1) / 100 calls after deployment. The
  multiplication is overflow-checked: beyond that bound the call reverts.
\<close>

theorem getProtocolStats_rate:
  "(totalMatches w = 0 \<longrightarrow>
      getProtocolStats w = Inr ((totalMatches w, successfulMatches w, 0), w)) \<and>
   (0 < totalMatches w \<and> successfulMatches w * 100 \<le> uint256_max \<longrightarrow>
      getProtocolStats w =
        Inr ((totalMatches w, successfulMatches w,
              successfulMatches w * 100 div totalMatches w), w)) \<and>
   (0 < totalMatches w \<and> uint256_max < successfulMatches w * 100 \<longrightarrow>
      getProtocolStats w = Inl Panic) \<and>
   post getProtocolStats w = w \<and>
   (successfulMatches w * 100 \<le> uint256_max \<longrightarrow>
      getProtocolStats w =
        Inr ((totalMatches w, successfulMatches w,
              if 0 < totalMatches w then successfulMatches w * 100 div totalMatches w else 0),
             w)) \<and>
   (length tr * 100 \<le> uint256_max \<longrightarrow>
      successfulMatches (run tr (constructor d s tok)) * 100 \<le> uint256_max)"
proof -
  have "successfulMatches (run tr (constructor d s tok)) \<le> length tr"
    using successfulMatches_run_le [of tr "constructor d s tok"] by (simp add: constructor_def)
  then have "successfulMatches (run tr (constructor d s tok)) * 100 \<le> length tr * 100"
    by simp
  then have "length tr * 100 \<le> uint256_max \<longrightarrow>
      successfulMatches (run tr (constructor d s tok)) * 100 \<le> uint256_max"
    by linarith
  then show ?thesis
    by (simp add: getProtocolStats_def checked_mul_def post_def)
qed

theorem getProtocolStats_rate_witness:
  "0 < totalMatches demo4 \<and> successfulMatches demo4 * 100 \<le> uint256_max \<and>
   getProtocolStats demo4 = Inr ((1, 1, 100), demo4) \<and>
   totalMatches demo0 = 0 \<and> getProtocolStats demo0 = Inr ((0, 0, 0), demo0) \<and>
   post getProtocolStats demo4 = demo4"
proof -
  have f: "totalMatches demo4 = 1" "successfulMatches demo4 = 1"
    "totalMatches demo0 = 0" "successfulMatches demo0 = 0"
    by (simp_all add: demo4_val demo3_val demo2_val demo1_val demo0_def constructor_def)
  show ?thesis
    using getProtocolStats_rate [of demo4 "[]" 1 9 demoLedger]
      getProtocolStats_rate [of demo0 "[]" 1 9 demoLedger]
    by (simp add: f uint256_max_val)
qed

end
